theory Spec2Isabelle
  imports Main "HOL-Library.AList"
begin

section \<open>FriendChess: the room engine of server.js\<close>

text \<open>
  The server keeps one table \<open>games\<close> from room id to game object and reacts to four
  socket events (join, chat, move, disconnect) and to the room-creation route.  Each
  handler is modelled as a function from the table to the new table and the list of calls
  it makes on the transport (\<open>socket.join\<close>, \<open>socket.emit\<close>, \<open>io.to(room).emit\<close>), in
  the order of the source.  \<open>Date.now()\<close> is an argument of the handlers that read it.

  JavaScript objects used as dictionaries (\<open>games\<close>, \<open>game.players\<close>) are association
  lists of their own properties.  \<open>games\<close> is created as \<open>{}\<close>, so reading
  \<open>games[room_id]\<close> with a room id sent by a client follows the prototype chain: for an
  id that is no own property but names a member of \<open>Object.prototype\<close> (such as
  \<open>constructor\<close>) the value is that member, which is truthy and has no \<open>players\<close>.
  The handlers then throw a \<open>TypeError\<close>; the throw is the last entry of the list of
  what the handler did, and the table is as the handler left it.  Socket ids are generated
  by the server and are taken not to be such names.
  Text is \<open>string\<close>; payload fields sent by a client are taken at the type the handler
  expects (a room id and a message are strings, a square is a pair of integers).
\<close>

subsection \<open>Data\<close>

type_synonym sid = string
type_synonym room_id = string
type_synonym pos = "int \<times> int"

text \<open>Seat colours, the strings \<open>"white"\<close> and \<open>"black"\<close> of \<open>game.players\<close>.\<close>

datatype color = White | Black

fun color_name :: "color \<Rightarrow> string" where
  "color_name White = ''white''"
| "color_name Black = ''black''"

text \<open>The object \<open>{ white: t, black: t }\<close> of remaining seconds.\<close>

record clock =
  white :: int
  black :: int

text \<open>
  chess.js is an external library.  Its class \<open>Chess\<close> enters as a parameter: a record of
  the four operations the server calls, over any type \<open>'b\<close> of board values.  The side
  to move and the colour of a piece are the strings \<open>"w"\<close> and \<open>"b"\<close>; a piece is
  \<open>{ type, color }\<close>; \<open>board.get\<close> gives no piece on an empty square; \<open>board.move\<close>
  gives the move with its \<open>san\<close> and advances the board, or gives nothing and leaves the
  board as it was.
\<close>

datatype side = W | B

record piece =
  piece_type :: char
  piece_color :: side

record move_arg =
  mv_from :: string
  mv_to :: string
  mv_promotion :: "string option"

record 'b chess =
  chess_new :: 'b
  chess_turn :: "'b \<Rightarrow> side"
  chess_get :: "'b \<Rightarrow> string \<Rightarrow> piece option"
  chess_move :: "'b \<Rightarrow> move_arg \<Rightarrow> ('b \<times> string) option"

text \<open>A game object of the table, with the field names of the source.\<close>

record 'b game =
  board :: 'b
  players :: "(sid \<times> color) list"
  mode :: string
  time :: "clock option"
  last_move_time :: int
  move_list :: "string list"

type_synonym 'b games = "(room_id \<times> 'b game) list"

text \<open>
  What a handler sends: the event name with its payload, and the transport call.  An
  exception that leaves the handler is recorded after the calls made before it.
\<close>

datatype js_error = TypeError

datatype payload =
    Full bool
  | Player color string "clock option"
  | Chat string
  | Moved pos pos color "pos \<times> pos" "clock option"

datatype effect =
    SocketJoin sid room_id
  | Emit sid payload
  | Broadcast room_id payload
  | Throws js_error

subsection \<open>Helper functions\<close>

text \<open>
  The property names every object inherits from \<open>Object.prototype\<close>.  Each is bound to
  a function, or to the prototype object itself for \<open>__proto__\<close>: a truthy value without
  a property \<open>players\<close>.
\<close>

definition object_prototype_names :: "string list" where
  "object_prototype_names =
     [''constructor'', ''__proto__'', ''hasOwnProperty'', ''isPrototypeOf'',
      ''propertyIsEnumerable'', ''toLocaleString'', ''toString'', ''valueOf'',
      ''__defineGetter__'', ''__defineSetter__'', ''__lookupGetter__'', ''__lookupSetter__'']"

definition inherited_name :: "string \<Rightarrow> bool" where
  "inherited_name k \<longleftrightarrow> k \<in> set object_prototype_names"

text \<open>Decimal text of a number, as string concatenation with a number produces it.\<close>

function nat_to_string :: "nat \<Rightarrow> string" where
  "nat_to_string n =
     (if n < 10 then [char_of (48 + n)]
      else nat_to_string (n div 10) @ [char_of (48 + n mod 10)])"
  by pat_completeness auto
termination
  by (relation "measure (\<lambda>n. n)") auto

definition number_to_string :: "int \<Rightarrow> string" where
  "number_to_string i =
     (if i < 0 then CHR ''-'' # nat_to_string (nat (- i)) else nat_to_string (nat i))"

text \<open>
  \<open>String.fromCharCode(n)\<close>: the one-unit string of code unit \<open>n mod 2^16\<close>.  The
  characters of \<open>string\<close> are bytes, so a unit above 255 is kept modulo 256; the files
  \<open>a\<close> to \<open>h\<close> are far below.
\<close>

definition from_char_code :: "int \<Rightarrow> string" where
  "from_char_code n = [char_of (n mod 65536)]"

text \<open>
  \<open>xy_to_uci\<close>; \<open>parseInt\<close> is the identity on the integers of a \<open>pos\<close> (on those
  that a JavaScript number holds exactly and prints without an exponent, below \<open>10^21\<close>;
  board coordinates are 0 to 7).
\<close>

fun xy_to_uci :: "pos \<Rightarrow> string" where
  "xy_to_uci (x, y) = from_char_code (97 + x) @ number_to_string (y + 1)"

text \<open>\<open>s[i]\<close>: the character at an index, nothing beyond the end.\<close>

definition char_at :: "string \<Rightarrow> nat \<Rightarrow> char option" where
  "char_at s i = (if i < length s then Some (s ! i) else None)"

text \<open>\<open>mode_time\<close>; \<open>null\<close> is \<open>None\<close>.\<close>

definition mode_time :: "string \<Rightarrow> int option" where
  "mode_time m =
     (if m = ''blitz'' then Some (5 * 60)
      else if m = ''rapid'' then Some (10 * 60)
      else if m = ''stopwatch'' then Some 0
      else None)"

subsection \<open>Room creation\<close>

text \<open>
  The object stored by \<open>/create/:mode\<close>.  \<open>start_time ? {...} : null\<close> takes the second
  branch for \<open>null\<close> and for \<open>0\<close>.
\<close>

definition new_game :: "'b chess \<Rightarrow> string \<Rightarrow> int \<Rightarrow> 'b game" where
  "new_game V m now =
     (let start_time = mode_time m in
      \<lparr> board = chess_new V,
        players = [],
        mode = m,
        time = (case start_time of
                  None \<Rightarrow> None
                | Some t \<Rightarrow> if t \<noteq> 0 then Some \<lparr> white = t, black = t \<rparr> else None),
        last_move_time = now,
        move_list = [] \<rparr>)"

text \<open>
  \<open>games[room_id] = {...}\<close>, with the id that \<open>uuidv4().slice(0, 8)\<close> produced as an
  argument.  The rendering of the page that follows does not touch the table.  A new id
  goes to the end of the list; JavaScript enumerates ids that are all digits before the
  others, which only matters for the order in which a disconnect visits different rooms.
\<close>

definition create_room :: "'b chess \<Rightarrow> string \<Rightarrow> room_id \<Rightarrow> int \<Rightarrow> 'b games \<Rightarrow> 'b games" where
  "create_room V m room now games = AList.update room (new_game V m now) games"

subsection \<open>The socket handlers\<close>

text \<open>
  The join handler.  Without an own property for the room id, \<open>game\<close> is undefined and
  the guard \<open>if (!game)\<close> answers \<open>full\<close>, unless the id names an inherited member:
  then the guard is passed and \<open>Object.keys(game.players)\<close> throws, after \<open>socket.join\<close>.
\<close>

definition on_join :: "sid \<Rightarrow> room_id \<Rightarrow> 'b games \<Rightarrow> 'b games \<times> effect list" where
  "on_join s room games =
     (case map_of games room of
        None \<Rightarrow>
          if inherited_name room then (games, [SocketJoin s room, Throws TypeError])
          else (games, [SocketJoin s room, Emit s (Full True)])
      | Some game \<Rightarrow>
          if length (players game) < 2 then
            let color = (if White \<in> set (map snd (players game)) then Black else White);
                game' = game\<lparr> players := AList.update s color (players game) \<rparr>
            in (AList.update room game' games,
                [SocketJoin s room,
                 Emit s (Player color (mode game) (time game)),
                 Broadcast room (Chat (''<i>'' @ color_name color @ '' ist beigetreten</i>''))])
          else (games, [SocketJoin s room, Emit s (Full True)]))"

text \<open>
  The label of a chat line is \<open>${color}\<close>: the colour of the seat, and the text
  \<open>undefined\<close> when \<open>game.players\<close> has no entry for the socket.  For a room id that
  names an inherited member, \<open>if (!game) return;\<close> is passed and
  \<open>game.players[socket.id]\<close> throws.
\<close>

fun color_label :: "color option \<Rightarrow> string" where
  "color_label None = ''undefined''"
| "color_label (Some c) = color_name c"

definition on_chat :: "sid \<Rightarrow> room_id \<Rightarrow> string \<Rightarrow> 'b games \<Rightarrow> 'b games \<times> effect list" where
  "on_chat s room msg games =
     (case map_of games room of
        None \<Rightarrow> if inherited_name room then (games, [Throws TypeError]) else (games, [])
      | Some game \<Rightarrow>
          let color = map_of (players game) s
          in (games, [Broadcast room (Chat (''<b>'' @ color_label color @ '':</b> '' @ msg))]))"

text \<open>\<open>game.time[color] -= elapsed\<close>.\<close>

fun charge :: "color \<Rightarrow> int \<Rightarrow> clock \<Rightarrow> clock" where
  "charge White e t = t\<lparr> white := white t - e \<rparr>"
| "charge Black e t = t\<lparr> black := black t - e \<rparr>"

text \<open>
  The block under \<open>// Zeit aktualisieren\<close>: \<open>Math.floor\<close> of the quotient is \<open>div\<close> on
  \<open>int\<close>.
\<close>

definition update_time :: "int \<Rightarrow> color \<Rightarrow> 'b game \<Rightarrow> 'b game" where
  "update_time now c game =
     (case time game of
        None \<Rightarrow> game
      | Some t \<Rightarrow>
          let elapsed = (now - last_move_time game) div 1000
          in game\<lparr> time := Some (charge c elapsed t), last_move_time := now \<rparr>)"

text \<open>
  The argument of \<open>board.move\<close>: both squares translated, and \<open>promotion\<close> set to
  \<open>"q"\<close> or left undefined.
\<close>

definition move_request :: "'b chess \<Rightarrow> 'b \<Rightarrow> pos \<Rightarrow> pos \<Rightarrow> move_arg" where
  "move_request V b src dst =
     (let uci_from = xy_to_uci src;
          uci_to = xy_to_uci dst;
          promo =
            (case chess_get V b uci_from of
               None \<Rightarrow> ''''
             | Some p \<Rightarrow>
                 if piece_type p = CHR ''p'' then
                   (if (piece_color p = W \<and> char_at uci_to 1 = Some CHR ''8'') \<or>
                       (piece_color p = B \<and> char_at uci_to 1 = Some CHR ''1'')
                    then ''q'' else '''')
                 else '''')
      in \<lparr> mv_from = uci_from, mv_to = uci_to,
           mv_promotion = (if promo \<noteq> '''' then Some promo else None) \<rparr>)"

definition next_turn :: "side \<Rightarrow> color" where
  "next_turn t = (if t = W then White else Black)"

text \<open>
  The move handler.  After the turn check \<open>color\<close> is a seat colour; the branch for no
  seat after the check is never taken and is written out only because \<open>case\<close> asks for it.
  For a room id that names an inherited member, \<open>if (!game) return;\<close> is passed,
  \<open>game.board\<close> is undefined and \<open>game.players[socket.id]\<close> throws.
\<close>

definition on_move ::
  "'b chess \<Rightarrow> int \<Rightarrow> sid \<Rightarrow> room_id \<Rightarrow> pos \<Rightarrow> pos \<Rightarrow> 'b games \<Rightarrow> 'b games \<times> effect list" where
  "on_move V now s room src dst games =
     (case map_of games room of
        None \<Rightarrow> if inherited_name room then (games, [Throws TypeError]) else (games, [])
      | Some game \<Rightarrow>
          let b = board game;
              color = map_of (players game) s
          in if (chess_turn V b = W \<and> color \<noteq> Some White) \<or>
                (chess_turn V b = B \<and> color \<noteq> Some Black)
             then (games, [])
             else
               (case color of
                  None \<Rightarrow> (games, [])
                | Some c \<Rightarrow>
                    let game1 = update_time now c game
                    in (case chess_move V b (move_request V b src dst) of
                          None \<Rightarrow> (AList.update room game1 games, [])
                        | Some (b', san) \<Rightarrow>
                            let game2 = game1\<lparr> board := b',
                                               move_list := move_list game1 @ [san] \<rparr>
                            in (AList.update room game2 games,
                                [Broadcast room
                                   (Moved src dst (next_turn (chess_turn V b'))
                                      (src, dst) (time game2))]))))"

text \<open>
  The disconnect handler: the loop over \<open>Object.entries(games)\<close>, one entry after the
  other.  A seat colour is a non-empty string, so the test of the loop holds exactly when
  the socket has an entry.
\<close>

fun on_disconnect :: "sid \<Rightarrow> 'b games \<Rightarrow> 'b games \<times> effect list" where
  "on_disconnect s [] = ([], [])"
| "on_disconnect s ((room, game) # rest) =
     (let (rest', out) = on_disconnect s rest in
      case map_of (players game) s of
        None \<Rightarrow> ((room, game) # rest', out)
      | Some c \<Rightarrow>
          ((room, game\<lparr> players := AList.delete s (players game) \<rparr>) # rest',
           Broadcast room (Chat (''<i>'' @ color_name c @ '' hat verlassen</i>'')) # out))"

subsection \<open>Event sequences\<close>

text \<open>
  The socket events a server receives, each with the connection it arrives on; a move
  carries the reading of the system clock at its arrival.
\<close>

datatype event =
    Join sid room_id
  | ChatMsg sid room_id string
  | MoveReq int sid room_id pos pos
  | Disconnect sid

fun handle :: "'b chess \<Rightarrow> event \<Rightarrow> 'b games \<Rightarrow> 'b games \<times> effect list" where
  "handle V (Join s room) games = on_join s room games"
| "handle V (ChatMsg s room msg) games = on_chat s room msg games"
| "handle V (MoveReq now s room src dst) games = on_move V now s room src dst games"
| "handle V (Disconnect s) games = on_disconnect s games"

text \<open>
  The table after a sequence of events, handled one at a time in arrival order.  No
  handler has changed the table when it throws, and the sequence goes on from the table
  as it is; a server that stops at an uncaught exception has seen a prefix.
\<close>

fun run :: "'b chess \<Rightarrow> event list \<Rightarrow> 'b games \<Rightarrow> 'b games" where
  "run V [] games = games"
| "run V (e # es) games = run V es (fst (handle V e games))"

subsection \<open>The properties the specification speaks of\<close>

text \<open>
  The seat invariant of the specification: no connection listed twice, at most two
  seats, and two seats are one white and one black.
\<close>

definition seats_ok :: "(sid \<times> color) list \<Rightarrow> bool" where
  "seats_ok ps \<longleftrightarrow>
     distinct (map fst ps) \<and> length ps \<le> 2 \<and>
     (length ps = 2 \<longrightarrow> set (map snd ps) = {White, Black})"

fun side_of :: "color \<Rightarrow> side" where
  "side_of White = W"
| "side_of Black = B"

text \<open>
  The acceptance condition in the words of the specification: (a) the connection holds a
  seat, (b) the colour of the seat is the side to move, (c) the validator accepts the
  translated move.  The value is the validator's answer: the next board and the notation.
\<close>

definition move_accepted ::
  "'b chess \<Rightarrow> sid \<Rightarrow> pos \<Rightarrow> pos \<Rightarrow> 'b game \<Rightarrow> ('b \<times> string) option" where
  "move_accepted V s src dst game =
     (case map_of (players game) s of
        None \<Rightarrow> None
      | Some c \<Rightarrow>
          if side_of c = chess_turn V (board game)
          then chess_move V (board game) (move_request V (board game) src dst)
          else None)"

text \<open>The notations of the moves of a sequence that a room accepts, in arrival order.\<close>

fun accepted_san :: "'b chess \<Rightarrow> room_id \<Rightarrow> event \<Rightarrow> 'b games \<Rightarrow> string list" where
  "accepted_san V r (MoveReq now s room src dst) games =
     (if room = r then
        (case map_of games r of
           None \<Rightarrow> []
         | Some g \<Rightarrow>
             (case move_accepted V s src dst g of
                None \<Rightarrow> []
              | Some (b', san) \<Rightarrow> [san]))
      else [])"
| "accepted_san V r (Join s room) games = []"
| "accepted_san V r (ChatMsg s room msg) games = []"
| "accepted_san V r (Disconnect s) games = []"

fun accepted_sans :: "'b chess \<Rightarrow> room_id \<Rightarrow> event list \<Rightarrow> 'b games \<Rightarrow> string list" where
  "accepted_sans V r [] games = []"
| "accepted_sans V r (e # es) games =
     accepted_san V r e games @ accepted_sans V r es (fst (handle V e games))"

text \<open>
  What the turn cycle of the specification takes from the validator: a new board has
  white to move, and every accepted move passes the turn to the other side.
\<close>

definition turn_alternates :: "'b chess \<Rightarrow> bool" where
  "turn_alternates V \<longleftrightarrow>
     chess_turn V (chess_new V) = W \<and>
     (\<forall>b m b' san. chess_move V b m = Some (b', san) \<longrightarrow> chess_turn V b' \<noteq> chess_turn V b)"

text \<open>The payloads broadcast to one room, in order.\<close>

fun broadcasts_to :: "room_id \<Rightarrow> effect list \<Rightarrow> payload list" where
  "broadcasts_to r [] = []"
| "broadcasts_to r (Broadcast room p # es) =
     (if room = r then p # broadcasts_to r es else broadcasts_to r es)"
| "broadcasts_to r (e # es) = broadcasts_to r es"

text \<open>What a disconnect does to one game object.\<close>

definition leave :: "sid \<Rightarrow> 'b game \<Rightarrow> 'b game" where
  "leave s game =
     (case map_of (players game) s of
        None \<Rightarrow> game
      | Some c \<Rightarrow> game\<lparr> players := AList.delete s (players game) \<rparr>)"

text \<open>The side to move as the length of the history determines it.\<close>

definition turn_by_history :: "'b chess \<Rightarrow> 'b game \<Rightarrow> bool" where
  "turn_by_history V g \<longleftrightarrow>
     chess_turn V (board g) = (if even (length (move_list g)) then W else B)"

text \<open>
  The translation in the words of the specification: a zero-based pair of file index and
  rank index names the square of that file letter and rank digit, and the hint is a
  queen exactly for a pawn on the source square whose target lies on the last rank of its
  colour (rank index 7 for white, 0 for black).
\<close>

definition algebraic :: "pos \<Rightarrow> string" where
  "algebraic p = [''abcdefgh'' ! nat (fst p), ''12345678'' ! nat (snd p)]"

definition promotion_hint :: "'b chess \<Rightarrow> 'b \<Rightarrow> pos \<Rightarrow> pos \<Rightarrow> string option" where
  "promotion_hint V b src dst =
     (case chess_get V b (algebraic src) of
        None \<Rightarrow> None
      | Some p \<Rightarrow>
          if piece_type p = CHR ''p'' \<and>
             ((piece_color p = W \<and> snd dst = 7) \<or> (piece_color p = B \<and> snd dst = 0))
          then Some ''q'' else None)"

definition spec_request :: "'b chess \<Rightarrow> 'b \<Rightarrow> pos \<Rightarrow> pos \<Rightarrow> move_arg" where
  "spec_request V b src dst =
     \<lparr> mv_from = algebraic src, mv_to = algebraic dst,
       mv_promotion = promotion_hint V b src dst \<rparr>"

definition on_board :: "pos \<Rightarrow> bool" where
  "on_board p \<longleftrightarrow> 0 \<le> fst p \<and> fst p < 8 \<and> 0 \<le> snd p \<and> snd p < 8"

subsection \<open>A small validator for concrete runs\<close>

text \<open>
  A stand-in for chess.js on which the handlers can be run.  A board is the placement of
  the pieces and the side to move.  It starts from the starting position of chess and
  accepts exactly the advances of a pawn of the side to move onto empty squares short of
  the last rank, one step or two from the home rank, with the target square as notation;
  chess.js accepts these moves with this notation in every position reached by them.
  It rejects everything else; the concrete runs below only use rejections that chess.js
  makes too (a move from an empty square, a pawn advance onto an occupied square).
\<close>

type_synonym demo_board = "(string \<times> piece) list \<times> side"

definition pc :: "char \<Rightarrow> side \<Rightarrow> piece" where
  "pc t c = \<lparr> piece_type = t, piece_color = c \<rparr>"

definition start_position :: "(string \<times> piece) list" where
  "start_position =
     [(''a1'', pc CHR ''r'' W), (''b1'', pc CHR ''n'' W), (''c1'', pc CHR ''b'' W),
      (''d1'', pc CHR ''q'' W), (''e1'', pc CHR ''k'' W), (''f1'', pc CHR ''b'' W),
      (''g1'', pc CHR ''n'' W), (''h1'', pc CHR ''r'' W),
      (''a2'', pc CHR ''p'' W), (''b2'', pc CHR ''p'' W), (''c2'', pc CHR ''p'' W),
      (''d2'', pc CHR ''p'' W), (''e2'', pc CHR ''p'' W), (''f2'', pc CHR ''p'' W),
      (''g2'', pc CHR ''p'' W), (''h2'', pc CHR ''p'' W),
      (''a7'', pc CHR ''p'' B), (''b7'', pc CHR ''p'' B), (''c7'', pc CHR ''p'' B),
      (''d7'', pc CHR ''p'' B), (''e7'', pc CHR ''p'' B), (''f7'', pc CHR ''p'' B),
      (''g7'', pc CHR ''p'' B), (''h7'', pc CHR ''p'' B),
      (''a8'', pc CHR ''r'' B), (''b8'', pc CHR ''n'' B), (''c8'', pc CHR ''b'' B),
      (''d8'', pc CHR ''q'' B), (''e8'', pc CHR ''k'' B), (''f8'', pc CHR ''b'' B),
      (''g8'', pc CHR ''n'' B), (''h8'', pc CHR ''r'' B)]"

fun other_side :: "side \<Rightarrow> side" where
  "other_side W = B"
| "other_side B = W"

fun rank_ahead :: "side \<Rightarrow> char \<Rightarrow> char option" where
  "rank_ahead W r =
     map_of [(CHR ''2'', CHR ''3''), (CHR ''3'', CHR ''4''), (CHR ''4'', CHR ''5''),
             (CHR ''5'', CHR ''6''), (CHR ''6'', CHR ''7'')] r"
| "rank_ahead B r =
     map_of [(CHR ''7'', CHR ''6''), (CHR ''6'', CHR ''5''), (CHR ''5'', CHR ''4''),
             (CHR ''4'', CHR ''3''), (CHR ''3'', CHR ''2'')] r"

fun home_rank :: "side \<Rightarrow> char" where
  "home_rank W = CHR ''2''"
| "home_rank B = CHR ''7''"

definition pawn_advances :: "(string \<times> piece) list \<Rightarrow> side \<Rightarrow> string \<Rightarrow> string list" where
  "pawn_advances pl t sq =
     (case sq of
        [f, r] \<Rightarrow>
          (case rank_ahead t r of
             None \<Rightarrow> []
           | Some r1 \<Rightarrow>
               if map_of pl [f, r1] \<noteq> None then []
               else [f, r1] #
                 (if r = home_rank t then
                    (case rank_ahead t r1 of
                       None \<Rightarrow> []
                     | Some r2 \<Rightarrow> if map_of pl [f, r2] = None then [[f, r2]] else [])
                  else []))
      | _ \<Rightarrow> [])"

definition demo_move :: "demo_board \<Rightarrow> move_arg \<Rightarrow> (demo_board \<times> string) option" where
  "demo_move b m =
     (case map_of (fst b) (mv_from m) of
        None \<Rightarrow> None
      | Some p \<Rightarrow>
          if piece_type p = CHR ''p'' \<and> piece_color p = snd b \<and>
             mv_to m \<in> set (pawn_advances (fst b) (snd b) (mv_from m))
          then Some ((AList.update (mv_to m) p (AList.delete (mv_from m) (fst b)),
                      other_side (snd b)),
                     mv_to m)
          else None)"

definition demo_chess :: "demo_board chess" where
  "demo_chess =
     \<lparr> chess_new = (start_position, W),
       chess_turn = snd,
       chess_get = (\<lambda>b sq. map_of (fst b) sq),
       chess_move = demo_move \<rparr>"

subsection \<open>Concrete tables\<close>

text \<open>
  A blitz room created at time 1000 in which connection \<open>A\<close> sits as white and \<open>B\<close> as
  black, before any move; a second, untimed room in which only \<open>B\<close> sits; and a board
  with a white pawn one step from promotion.
\<close>

definition example_game :: "demo_board game" where
  "example_game =
     (new_game demo_chess ''blitz'' 1000)\<lparr> players := [(''A'', White), (''B'', Black)] \<rparr>"

definition example_table :: "demo_board games" where
  "example_table = [(''r1'', example_game)]"

definition lone_game :: "demo_board game" where
  "lone_game = (new_game demo_chess ''normal'' 2000)\<lparr> players := [(''B'', White)] \<rparr>"

definition two_rooms :: "demo_board games" where
  "two_rooms = [(''r1'', example_game), (''r2'', lone_game)]"

definition promotion_board :: demo_board where
  "promotion_board =
     ([(''a7'', pc CHR ''p'' W), (''e1'', pc CHR ''k'' W), (''h8'', pc CHR ''k'' B)], W)"

section \<open>Lemmas\<close>

subsection \<open>The table\<close>

lemma map_of_update_room:
  "map_of (AList.update room g games) r = (if r = room then Some g else map_of games r)"
  by (simp add: update_conv')

subsection \<open>Disconnect, entry by entry\<close>

lemma on_disconnect_fst_Cons:
  "fst (on_disconnect s ((room, game) # rest)) = (room, leave s game) # fst (on_disconnect s rest)"
  by (simp add: leave_def split: prod.splits option.splits)

lemma on_disconnect_snd_Cons:
  "snd (on_disconnect s ((room, game) # rest)) =
     (case map_of (players game) s of
        None \<Rightarrow> snd (on_disconnect s rest)
      | Some c \<Rightarrow> Broadcast room (Chat (''<i>'' @ color_name c @ '' hat verlassen</i>''))
                   # snd (on_disconnect s rest))"
  by (simp split: prod.splits option.splits)

lemma on_disconnect_room:
  "map_of (fst (on_disconnect s games)) r = map_option (leave s) (map_of games r)"
proof (induction games)
  case Nil
  show ?case by simp
next
  case (Cons a games)
  obtain room game where a: "a = (room, game)" by (cases a)
  show ?case unfolding a on_disconnect_fst_Cons using Cons.IH by simp
qed

lemma on_disconnect_keys:
  "map fst (fst (on_disconnect s games)) = map fst games"
proof (induction games)
  case Nil
  show ?case by simp
next
  case (Cons a games)
  obtain room game where a: "a = (room, game)" by (cases a)
  show ?case unfolding a on_disconnect_fst_Cons using Cons.IH by simp
qed

lemma on_disconnect_broadcasts_absent:
  "r \<notin> fst ` set games \<Longrightarrow> broadcasts_to r (snd (on_disconnect s games)) = []"
proof (induction games)
  case Nil
  show ?case by simp
next
  case (Cons a games)
  obtain room game where a: "a = (room, game)" by (cases a)
  from Cons.prems a have "room \<noteq> r" and "r \<notin> fst ` set games" by auto
  with Cons.IH show ?case unfolding a on_disconnect_snd_Cons
    by (simp split: option.splits)
qed

lemma on_disconnect_broadcasts:
  "distinct (map fst games) \<Longrightarrow> map_of games r = Some g \<Longrightarrow>
   broadcasts_to r (snd (on_disconnect s games)) =
     (case map_of (players g) s of
        None \<Rightarrow> []
      | Some c \<Rightarrow> [Chat (''<i>'' @ color_name c @ '' hat verlassen</i>'')])"
proof (induction games)
  case Nil
  then show ?case by simp
next
  case (Cons a games)
  obtain room game where a: "a = (room, game)" by (cases a)
  show ?case
  proof (cases "room = r")
    case True
    with Cons.prems a have "game = g" and "r \<notin> fst ` set games" by auto
    then show ?thesis unfolding a on_disconnect_snd_Cons
      using True by (simp add: on_disconnect_broadcasts_absent split: option.splits)
  next
    case False
    with Cons.prems a have "distinct (map fst games)" and "map_of games r = Some g" by auto
    with Cons.IH have "broadcasts_to r (snd (on_disconnect s games)) =
       (case map_of (players g) s of None \<Rightarrow> []
        | Some c \<Rightarrow> [Chat (''<i>'' @ color_name c @ '' hat verlassen</i>'')])" by simp
    then show ?thesis unfolding a on_disconnect_snd_Cons
      using False by (simp split: option.splits)
  qed
qed

lemma on_disconnect_only_broadcasts:
  "e \<in> set (snd (on_disconnect s games)) \<Longrightarrow> \<exists>r p. e = Broadcast r p"
proof (induction games)
  case Nil
  then show ?case by simp
next
  case (Cons a games)
  obtain room game where a: "a = (room, game)" by (cases a)
  from Cons.prems Cons.IH show ?case unfolding a on_disconnect_snd_Cons
    by (auto split: option.splits)
qed

subsection \<open>Seats\<close>

lemma length_delete_less:
  "s \<in> fst ` set ps \<Longrightarrow> length (AList.delete s ps) < length ps"
proof -
  assume "s \<in> fst ` set ps"
  then obtain c where "(s, c) \<in> set ps" by auto
  then show ?thesis
    unfolding AList.delete_eq by (rule length_filter_less) simp
qed

lemma seats_ok_delete: "seats_ok ps \<Longrightarrow> seats_ok (AList.delete s ps)"
proof (cases "s \<in> fst ` set ps")
  case False
  assume "seats_ok ps"
  with False show ?thesis by simp
next
  case True
  assume a: "seats_ok ps"
  from True have "length (AList.delete s ps) < length ps" by (rule length_delete_less)
  with a show ?thesis by (simp add: seats_ok_def distinct_delete)
qed

lemma seats_ok_join:
  assumes "seats_ok ps" "length ps < 2"
  shows "seats_ok (AList.update s (if White \<in> set (map snd ps) then Black else White) ps)"
proof (cases ps)
  case Nil then show ?thesis by (simp add: seats_ok_def)
next
  case (Cons a qs)
  with assms have "qs = []" by simp
  with Cons show ?thesis by (cases a; cases "snd a") (auto simp: seats_ok_def)
qed

lemma seats_ok_leave: "seats_ok (players g) \<Longrightarrow> seats_ok (players (leave s g))"
  by (simp add: leave_def seats_ok_delete split: option.splits)

lemma on_join_other:
  "r \<noteq> room \<Longrightarrow> map_of (fst (on_join s room games)) r = map_of games r"
  by (simp add: on_join_def Let_def map_of_update_room split: option.splits)

lemma on_join_room:
  assumes "map_of games room = Some g"
  shows "\<exists>g'. map_of (fst (on_join s room games)) room = Some g' \<and>
              board g' = board g \<and> move_list g' = move_list g \<and>
              (seats_ok (players g) \<longrightarrow> seats_ok (players g'))"
  using assms seats_ok_join [of "players g" s]
  by (auto simp: on_join_def Let_def map_of_update_room)

subsection \<open>Moves\<close>

lemma update_time_fields:
  "board (update_time now c g) = board g"
  "players (update_time now c g) = players g"
  "mode (update_time now c g) = mode g"
  "move_list (update_time now c g) = move_list g"
  by (simp_all add: update_time_def Let_def split: option.splits)

lemma on_move_other:
  "r \<noteq> room \<Longrightarrow> map_of (fst (on_move V now s room src dst games)) r = map_of games r"
  by (simp add: on_move_def Let_def map_of_update_room split: option.splits)

lemma on_move_unseated:
  assumes "map_of games room = Some g" "map_of (players g) s = None"
  shows "on_move V now s room src dst games = (games, [])"
  using assms by (cases "chess_turn V (board g)") (simp_all add: on_move_def Let_def)

lemma on_move_seated:
  assumes "map_of games room = Some g" "map_of (players g) s = Some c"
  shows "on_move V now s room src dst games =
     (if side_of c \<noteq> chess_turn V (board g) then (games, [])
      else (case chess_move V (board g) (move_request V (board g) src dst) of
              None \<Rightarrow> (AList.update room (update_time now c g) games, [])
            | Some (b', san) \<Rightarrow>
                (AList.update room
                   ((update_time now c g)\<lparr> board := b', move_list := move_list g @ [san] \<rparr>) games,
                 [Broadcast room (Moved src dst (next_turn (chess_turn V b')) (src, dst)
                    (time (update_time now c g)))])))"
  using assms
  by (cases c; cases "chess_turn V (board g)")
     (simp_all add: on_move_def Let_def update_time_fields split: option.splits)

lemma on_move_room:
  assumes "map_of games room = Some g"
  shows "\<exists>g'. map_of (fst (on_move V now s room src dst games)) room = Some g' \<and>
           players g' = players g \<and>
           move_list g' = move_list g @ accepted_san V room (MoveReq now s room src dst) games \<and>
           (case move_accepted V s src dst g of
              None \<Rightarrow> board g' = board g
            | Some (b', san) \<Rightarrow> board g' = b')"
proof (cases "map_of (players g) s")
  case None
  with assms show ?thesis by (simp add: on_move_unseated move_accepted_def)
next
  case (Some c)
  with assms show ?thesis
    by (auto simp: on_move_seated move_accepted_def map_of_update_room update_time_fields
             split: option.splits)
qed

subsection \<open>Event sequences, one room at a time\<close>

lemma handle_seats:
  assumes "map_of games r = Some g" "seats_ok (players g)"
  shows "\<exists>g'. map_of (fst (handle V e games)) r = Some g' \<and> seats_ok (players g')"
proof (cases e)
  case (Join s room)
  show ?thesis
  proof (cases "room = r")
    case True
    with on_join_room [of games r g s] assms Join show ?thesis by auto
  next
    case False
    with assms Join show ?thesis by (simp add: on_join_other)
  qed
next
  case (ChatMsg s room msg)
  with assms show ?thesis by (simp add: on_chat_def Let_def split: option.splits)
next
  case (MoveReq now s room src dst)
  show ?thesis
  proof (cases "room = r")
    case True
    with on_move_room [of games r g V now s src dst] assms MoveReq show ?thesis by auto
  next
    case False
    with assms MoveReq show ?thesis by (simp add: on_move_other)
  qed
next
  case (Disconnect s)
  with assms show ?thesis by (simp add: on_disconnect_room seats_ok_leave)
qed

lemma run_seats:
  "map_of games r = Some g \<Longrightarrow> seats_ok (players g) \<Longrightarrow>
   \<exists>g'. map_of (run V evs games) r = Some g' \<and> seats_ok (players g')"
proof (induction evs arbitrary: games g)
  case Nil
  then show ?case by simp
next
  case (Cons e evs)
  from handle_seats [OF Cons.prems, of V e]
  obtain g1 where "map_of (fst (handle V e games)) r = Some g1" "seats_ok (players g1)"
    by blast
  then show ?case using Cons.IH by simp
qed

lemma side_flip: "t' \<noteq> t \<Longrightarrow> (t' = W) = (t = B)"
  by (cases t; cases t') simp_all

lemma handle_history:
  assumes "map_of games r = Some g"
  shows "\<exists>g'. map_of (fst (handle V e games)) r = Some g' \<and>
           move_list g' = move_list g @ accepted_san V r e games \<and>
           (turn_alternates V \<longrightarrow> turn_by_history V g \<longrightarrow> turn_by_history V g')"
proof (cases e)
  case (Join s room)
  show ?thesis
  proof (cases "room = r")
    case True
    with on_join_room [of games r g s] assms Join show ?thesis
      by (auto simp: turn_by_history_def)
  next
    case False
    with assms Join show ?thesis by (simp add: on_join_other)
  qed
next
  case (ChatMsg s room msg)
  with assms show ?thesis by (simp add: on_chat_def Let_def split: option.splits)
next
  case (MoveReq now s room src dst)
  show ?thesis
  proof (cases "room = r")
    case False
    with assms MoveReq show ?thesis by (simp add: on_move_other)
  next
    case True
    from on_move_room [of games r g V now s src dst] assms
    obtain g' where g':
      "map_of (fst (on_move V now s r src dst games)) r = Some g'"
      "move_list g' = move_list g @ accepted_san V r (MoveReq now s r src dst) games"
      "case move_accepted V s src dst g of None \<Rightarrow> board g' = board g
       | Some (b', san) \<Rightarrow> board g' = b'"
      by blast
    have "turn_by_history V g'" if alt: "turn_alternates V" and h: "turn_by_history V g"
    proof (cases "move_accepted V s src dst g")
      case None
      with g' assms h show ?thesis by (simp add: turn_by_history_def)
    next
      case (Some a)
      obtain b' san where a: "a = (b', san)" by (cases a)
      from Some a have "chess_move V (board g) (move_request V (board g) src dst) = Some (b', san)"
        by (simp add: move_accepted_def split: option.splits if_splits)
      with alt have "chess_turn V b' \<noteq> chess_turn V (board g)"
        unfolding turn_alternates_def by blast
      then have "(chess_turn V b' = W) = (chess_turn V (board g) = B)" by (rule side_flip)
      with g' assms h Some a show ?thesis
        by (cases "chess_turn V b'") (auto simp: turn_by_history_def split: if_splits)
    qed
    with g' True MoveReq show ?thesis by auto
  qed
next
  case (Disconnect s)
  with assms show ?thesis
    by (auto simp: on_disconnect_room leave_def turn_by_history_def split: option.splits)
qed

lemma run_history:
  "map_of games r = Some g \<Longrightarrow>
   \<exists>g'. map_of (run V evs games) r = Some g' \<and>
        move_list g' = move_list g @ accepted_sans V r evs games \<and>
        (turn_alternates V \<longrightarrow> turn_by_history V g \<longrightarrow> turn_by_history V g')"
proof (induction evs arbitrary: games g)
  case Nil
  then show ?case by simp
next
  case (Cons e evs)
  from handle_history [OF Cons.prems, of V e]
  obtain g1 where g1: "map_of (fst (handle V e games)) r = Some g1"
    "move_list g1 = move_list g @ accepted_san V r e games"
    "turn_alternates V \<longrightarrow> turn_by_history V g \<longrightarrow> turn_by_history V g1"
    by blast
  from Cons.IH [OF g1(1)] g1(2,3) show ?case by auto
qed

subsection \<open>Squares\<close>

lemma file_letter:
  assumes "0 \<le> x" "x < 8"
  shows "from_char_code (97 + x) = [''abcdefgh'' ! nat x]"
proof -
  have "\<forall>i \<in> set [0..7]. from_char_code (97 + i) = [''abcdefgh'' ! nat i]"
    by code_simp
  moreover from assms have "x \<in> set [0..7]" by simp
  ultimately show ?thesis by blast
qed

lemma rank_digit:
  assumes "0 \<le> y" "y < 8"
  shows "number_to_string (y + 1) = [''12345678'' ! nat y]"
proof -
  have "\<forall>i \<in> set [0..7]. number_to_string (i + 1) = [''12345678'' ! nat i]"
    by code_simp
  moreover from assms have "y \<in> set [0..7]" by simp
  ultimately show ?thesis by blast
qed

lemma xy_to_uci_on_board: "on_board p \<Longrightarrow> xy_to_uci p = algebraic p"
  by (cases p) (simp add: on_board_def algebraic_def file_letter rank_digit)

lemma rank_digit_last:
  assumes "0 \<le> y" "y < 8"
  shows "(''12345678'' ! nat y = CHR ''8'') = (y = 7) \<and>
         (''12345678'' ! nat y = CHR ''1'') = (y = 0)"
proof -
  have "\<forall>i \<in> set [0..7]. (''12345678'' ! nat i = CHR ''8'') = (i = 7) \<and>
                           (''12345678'' ! nat i = CHR ''1'') = (i = 0)"
    by code_simp
  moreover from assms have "y \<in> set [0..7]" by simp
  ultimately show ?thesis by blast
qed

lemma char_at_algebraic: "char_at (algebraic p) (Suc 0) = Some (''12345678'' ! nat (snd p))"
  by (simp add: char_at_def algebraic_def)

lemma move_request_on_board:
  assumes "on_board src" "on_board dst"
  shows "move_request V b src dst = spec_request V b src dst"
proof -
  from assms(2) have y2: "0 \<le> snd dst" "snd dst < 8" by (simp_all add: on_board_def)
  show ?thesis
    using assms rank_digit_last [OF y2]
    by (auto simp: move_request_def spec_request_def promotion_hint_def Let_def
          xy_to_uci_on_board char_at_algebraic split: option.splits)
qed

subsection \<open>The small validator and the concrete tables\<close>

lemma demo_alternates: "turn_alternates demo_chess"
proof -
  have "chess_turn demo_chess b' \<noteq> chess_turn demo_chess b"
    if "chess_move demo_chess b m = Some (b', san)" for b m b' san
    using that
    by (cases "snd b") (auto simp: demo_chess_def demo_move_def split: option.splits if_splits)
  then show ?thesis unfolding turn_alternates_def by (auto simp: demo_chess_def)
qed

lemma example_room: "map_of example_table ''r1'' = Some example_game"
  by (simp add: example_table_def)

lemma example_table_reached:
  "run demo_chess [Join ''A'' ''r1'', Join ''B'' ''r1'']
     (create_room demo_chess ''blitz'' ''r1'' 1000 []) = example_table"
  by code_simp

lemma two_rooms_reached:
  "run demo_chess [Join ''A'' ''r1'', Join ''B'' ''r1'', Join ''B'' ''r2'']
     (create_room demo_chess ''normal'' ''r2'' 2000
        (create_room demo_chess ''blitz'' ''r1'' 1000 [])) = two_rooms"
  by code_simp

subsection \<open>Room ids that are not in the table\<close>

lemma inherited_constructor: "inherited_name ''constructor''"
  by (simp add: inherited_name_def object_prototype_names_def)

lemma not_inherited_zz: "\<not> inherited_name ''zz''"
  by (simp add: inherited_name_def object_prototype_names_def)

lemma absent_room_chat_move:
  assumes "map_of games room = None" and "\<not> inherited_name room"
  shows "on_chat s room msg games = (games, []) \<and>
         on_move V now s room src dst games = (games, [])"
  using assms by (simp add: on_chat_def on_move_def)

lemma inherited_room_throws:
  assumes "map_of games room = None" and "inherited_name room"
  shows "on_join s room games = (games, [SocketJoin s room, Throws TypeError]) \<and>
         on_chat s room msg games = (games, [Throws TypeError]) \<and>
         on_move V now s room src dst games = (games, [Throws TypeError])"
  using assms by (simp add: on_join_def on_chat_def on_move_def)

section \<open>The claims\<close>

subsection \<open>C1: when a move is applied\<close>

text \<open>
  Claim C1, as the code has it.  For a move event on an existing room, the move is
  applied (the board becomes the validator's next board, the notation is appended to the
  history, the move is broadcast to the room) if and only if the connection holds a seat,
  the colour of the seat is the side to move and the validator accepts the translated
  move.  In every other case board, history, seats and mode are unchanged and nothing is
  sent.  The clock is untouched when the seat or the turn fails, for then the whole table
  is unchanged; a move of the seated side to move that the validator rejects has already
  passed the time update, so the clock of the room is the updated one.
\<close>

theorem move_applied_iff_accepted:
  assumes "map_of games room = Some g"
  shows "\<exists>g'. map_of (fst (on_move V now s room src dst games)) room = Some g' \<and>
           players g' = players g \<and> mode g' = mode g \<and>
           (case move_accepted V s src dst g of
              Some (b', san) \<Rightarrow>
                board g' = b' \<and> move_list g' = move_list g @ [san] \<and>
                snd (on_move V now s room src dst games) =
                  [Broadcast room
                     (Moved src dst (next_turn (chess_turn V b')) (src, dst) (time g'))]
            | None \<Rightarrow>
                board g' = board g \<and> move_list g' = move_list g \<and>
                snd (on_move V now s room src dst games) = [] \<and>
                (\<forall>c. map_of (players g) s = Some c \<and> side_of c = chess_turn V (board g) \<longrightarrow>
                       time g' = time (update_time now c g) \<and>
                       last_move_time g' = last_move_time (update_time now c g)) \<and>
                ((\<forall>c. map_of (players g) s = Some c \<longrightarrow> side_of c \<noteq> chess_turn V (board g)) \<longrightarrow>
                   on_move V now s room src dst games = (games, [])))"
proof (cases "map_of (players g) s")
  case None
  with assms show ?thesis
    by (simp add: on_move_unseated move_accepted_def)
next
  case (Some c)
  show ?thesis
  proof (cases "side_of c = chess_turn V (board g)")
    case False
    with assms Some show ?thesis
      by (simp add: on_move_seated move_accepted_def)
  next
    case True
    show ?thesis
    proof (cases "chess_move V (board g) (move_request V (board g) src dst)")
      case None
      with assms Some True show ?thesis
        by (simp add: on_move_seated move_accepted_def map_of_update_room update_time_fields)
    next
      case (Some r)
      obtain b' san where r: "r = (b', san)" by (cases r)
      from assms \<open>map_of (players g) s = Some c\<close> True Some r show ?thesis
        by (simp add: on_move_seated move_accepted_def map_of_update_room update_time_fields)
    qed
  qed
qed

text \<open>
  On the table with \<open>A\<close> as white and \<open>B\<close> as black: the advance e2 to e4 by \<open>A\<close> is
  applied, the advance e7 to e5 by \<open>B\<close>, out of turn, changes nothing.
\<close>

theorem move_applied_iff_accepted_witness:
  "map_of example_table ''r1'' = Some example_game \<and>
   move_accepted demo_chess ''A'' (4, 1) (4, 3) example_game \<noteq> None \<and>
   move_accepted demo_chess ''B'' (4, 6) (4, 4) example_game = None \<and>
   (\<exists>g'. map_of (fst (on_move demo_chess 6000 ''A'' ''r1'' (4, 1) (4, 3) example_table)) ''r1''
            = Some g' \<and>
          move_list g' = [''e4''] \<and>
          snd (on_move demo_chess 6000 ''A'' ''r1'' (4, 1) (4, 3) example_table) =
            [Broadcast ''r1'' (Moved (4, 1) (4, 3) Black ((4, 1), (4, 3)) (time g'))]) \<and>
   on_move demo_chess 6000 ''B'' ''r1'' (4, 6) (4, 4) example_table = (example_table, [])"
proof -
  have "map_option (\<lambda>(b, san). (chess_turn demo_chess b, san))
          (move_accepted demo_chess ''A'' (4, 1) (4, 3) example_game) = Some (B, ''e4'')"
    by code_simp
  then obtain b1 where a: "move_accepted demo_chess ''A'' (4, 1) (4, 3) example_game = Some (b1, ''e4'')"
    and t: "chess_turn demo_chess b1 = B"
    by auto
  have n: "move_accepted demo_chess ''B'' (4, 6) (4, 4) example_game = None" by code_simp
  have off: "\<forall>c. map_of (players example_game) ''B'' = Some c \<longrightarrow>
                  side_of c \<noteq> chess_turn demo_chess (board example_game)"
    by (simp add: example_game_def new_game_def demo_chess_def)
  have l: "move_list example_game = []" by (simp add: example_game_def new_game_def)
  show ?thesis
    using example_room a t n off l
      move_applied_iff_accepted [OF example_room, of demo_chess 6000 "''A''" "(4, 1)" "(4, 3)"]
      move_applied_iff_accepted [OF example_room, of demo_chess 6000 "''B''" "(4, 6)" "(4, 4)"]
    by (auto simp: next_turn_def)
qed

text \<open>
  The clock is not left unchanged in every other case.  In the blitz room created at time
  1000, white, to move, asks at time 6000 for a move from the empty square e4.  The move
  is not accepted, and white's remaining time has gone from 300 to 295 seconds.
\<close>

theorem move_rejected_clock_counterexample:
  "map_of example_table ''r1'' = Some example_game \<and>
   map_of (players example_game) ''A'' = Some White \<and>
   chess_turn demo_chess (board example_game) = W \<and>
   move_accepted demo_chess ''A'' (4, 3) (4, 4) example_game = None \<and>
   time example_game = Some \<lparr> white = 300, black = 300 \<rparr> \<and>
   map_option time (map_of (fst (on_move demo_chess 6000 ''A'' ''r1'' (4, 3) (4, 4) example_table)) ''r1'')
     = Some (Some \<lparr> white = 295, black = 300 \<rparr>)"
  by code_simp

subsection \<open>C2: at most two seats, of different colours\<close>

text \<open>
  Claim C2.  From a room whose seats satisfy the seat invariant (a new room does), at
  every point of every sequence of events, joins or others, the room has at most two
  seats, and two seats are one white and one black.  A join that finds two seats taken
  leaves the table unchanged and answers the joining socket alone with the signal
  \<open>full\<close>.
\<close>

theorem seats_at_most_two:
  assumes "map_of games room = Some g" and "seats_ok (players g)"
  shows "(\<exists>g'. map_of (run V (take n evs) games) room = Some g' \<and> seats_ok (players g')) \<and>
         (length (players g) = 2 \<longrightarrow>
            on_join s room games = (games, [SocketJoin s room, Emit s (Full True)]))"
  using assms run_seats [OF assms, of V "take n evs"] by (simp add: on_join_def)

theorem seats_at_most_two_witness:
  "map_of example_table ''r1'' = Some example_game \<and>
   seats_ok (players example_game) \<and>
   length (players example_game) = 2 \<and>
   map_option players
     (map_of (run demo_chess
                (take 3 [Join ''C'' ''r1'', Disconnect ''A'', Join ''C'' ''r1'', Join ''D'' ''r1''])
                example_table) ''r1'') = Some [(''B'', Black), (''C'', White)] \<and>
   (\<exists>g'. map_of (run demo_chess
                   (take 3 [Join ''C'' ''r1'', Disconnect ''A'', Join ''C'' ''r1'', Join ''D'' ''r1''])
                   example_table) ''r1'' = Some g' \<and>
         seats_ok (players g')) \<and>
   on_join ''C'' ''r1'' example_table =
     (example_table, [SocketJoin ''C'' ''r1'', Emit ''C'' (Full True)])"
proof -
  have ok: "seats_ok (players example_game)" by (simp add: example_game_def seats_ok_def)
  have two: "length (players example_game) = 2" by (simp add: example_game_def)
  have seats: "map_option players
     (map_of (run demo_chess
                (take 3 [Join ''C'' ''r1'', Disconnect ''A'', Join ''C'' ''r1'', Join ''D'' ''r1''])
                example_table) ''r1'') = Some [(''B'', Black), (''C'', White)]"
    by code_simp
  show ?thesis
    using example_room ok two seats
      seats_at_most_two [OF example_room ok, of demo_chess 3
        "[Join ''C'' ''r1'', Disconnect ''A'', Join ''C'' ''r1'', Join ''D'' ''r1'']" "''C''"]
    by blast
qed

subsection \<open>C3: history and turn after accepted moves\<close>

text \<open>
  Claim C3.  The side to move belongs to the validator, so the claim is proved for every
  validator whose new board has white to move and whose accepted moves pass the turn.
  From a newly created room and after any sequence of events, the history of the room is
  the list of the notations of the accepted moves, in the order of their arrival; so with
  \<open>N\<close> accepted moves it has \<open>N\<close> entries, and the side to move is white when \<open>N\<close> is
  even and black when \<open>N\<close> is odd.
\<close>

theorem history_and_turn:
  assumes "turn_alternates V"
  shows "\<exists>g. map_of (run V evs (create_room V m room now games)) room = Some g \<and>
             move_list g = accepted_sans V room evs (create_room V m room now games) \<and>
             chess_turn V (board g) =
               (if even (length (accepted_sans V room evs (create_room V m room now games)))
                then W else B)"
proof -
  let ?s0 = "create_room V m room now games"
  have fresh: "map_of ?s0 room = Some (new_game V m now)"
    by (simp add: create_room_def map_of_update_room)
  have start: "turn_by_history V (new_game V m now)"
    using assms by (simp add: turn_by_history_def new_game_def turn_alternates_def)
  from run_history [OF fresh, of V evs] assms start
  obtain g where g: "map_of (run V evs ?s0) room = Some g"
    "move_list g = move_list (new_game V m now) @ accepted_sans V room evs ?s0"
    "turn_by_history V g" by blast
  from g(2) have "move_list g = accepted_sans V room evs ?s0" by (simp add: new_game_def)
  with g show ?thesis by (auto simp: turn_by_history_def)
qed

theorem history_and_turn_witness:
  "turn_alternates demo_chess \<and>
   accepted_sans demo_chess ''r1''
     [Join ''A'' ''r1'', Join ''B'' ''r1'',
      MoveReq 6000 ''A'' ''r1'' (4, 1) (4, 3),
      MoveReq 7000 ''A'' ''r1'' (3, 1) (3, 3),
      MoveReq 9000 ''B'' ''r1'' (4, 6) (4, 4),
      MoveReq 12000 ''A'' ''r1'' (4, 3) (4, 4),
      Disconnect ''A'']
     (create_room demo_chess ''blitz'' ''r1'' 1000 []) = [''e4'', ''e5''] \<and>
   (\<exists>g. map_of (run demo_chess
                  [Join ''A'' ''r1'', Join ''B'' ''r1'',
                   MoveReq 6000 ''A'' ''r1'' (4, 1) (4, 3),
                   MoveReq 7000 ''A'' ''r1'' (3, 1) (3, 3),
                   MoveReq 9000 ''B'' ''r1'' (4, 6) (4, 4),
                   MoveReq 12000 ''A'' ''r1'' (4, 3) (4, 4),
                   Disconnect ''A'']
                  (create_room demo_chess ''blitz'' ''r1'' 1000 [])) ''r1'' = Some g \<and>
        move_list g = [''e4'', ''e5''] \<and>
        chess_turn demo_chess (board g) = W)"
proof -
  have s: "accepted_sans demo_chess ''r1''
     [Join ''A'' ''r1'', Join ''B'' ''r1'',
      MoveReq 6000 ''A'' ''r1'' (4, 1) (4, 3),
      MoveReq 7000 ''A'' ''r1'' (3, 1) (3, 3),
      MoveReq 9000 ''B'' ''r1'' (4, 6) (4, 4),
      MoveReq 12000 ''A'' ''r1'' (4, 3) (4, 4),
      Disconnect ''A'']
     (create_room demo_chess ''blitz'' ''r1'' 1000 []) = [''e4'', ''e5'']"
    by code_simp
  show ?thesis
    using demo_alternates s
      history_and_turn [OF demo_alternates, of
        "[Join ''A'' ''r1'', Join ''B'' ''r1'',
          MoveReq 6000 ''A'' ''r1'' (4, 1) (4, 3),
          MoveReq 7000 ''A'' ''r1'' (3, 1) (3, 3),
          MoveReq 9000 ''B'' ''r1'' (4, 6) (4, 4),
          MoveReq 12000 ''A'' ''r1'' (4, 3) (4, 4),
          Disconnect ''A'']" "''blitz''" "''r1''" 1000 "[]"]
    by simp
qed

subsection \<open>C4: the clock of a new room\<close>

text \<open>
  Claim C4.  Room creation is a total function that stores the new room under its id.
  The clock of the new room depends on the mode alone: 300 seconds a side for blitz, 600
  for rapid, and no clock for normal, analyse and stopwatch.
\<close>

theorem create_room_clock:
  "map_of (create_room V m room now games) room = Some (new_game V m now) \<and>
   time (new_game V ''blitz'' now) = Some \<lparr> white = 300, black = 300 \<rparr> \<and>
   time (new_game V ''rapid'' now) = Some \<lparr> white = 600, black = 600 \<rparr> \<and>
   time (new_game V ''normal'' now) = None \<and>
   time (new_game V ''analyse'' now) = None \<and>
   time (new_game V ''stopwatch'' now) = None \<and>
   time (new_game V m now) = time (new_game V' m now')"
  by (simp add: create_room_def new_game_def mode_time_def update_conv')

subsection \<open>C5: joining a room that does not exist\<close>

text \<open>
  Claim C5, as the code has it.  A join for a room id that is not in the table and is not
  the name of a member inherited from \<open>Object.prototype\<close> leaves the table unchanged
  and answers the joining socket with the signal \<open>full\<close>, value true: the same signal a
  full room gives, and no other response.
\<close>

theorem join_unknown_room_full:
  assumes "map_of games room = None" and "\<not> inherited_name room"
  shows "on_join s room games = (games, [SocketJoin s room, Emit s (Full True)])"
  using assms by (simp add: on_join_def)

theorem join_unknown_room_full_witness:
  "map_of example_table ''zz'' = None \<and> \<not> inherited_name ''zz'' \<and>
   on_join ''C'' ''zz'' example_table =
     (example_table, [SocketJoin ''C'' ''zz'', Emit ''C'' (Full True)])"
proof -
  have h: "map_of example_table ''zz'' = None" by (simp add: example_table_def)
  have n: "\<not> inherited_name ''zz''" by (rule not_inherited_zz)
  show ?thesis using h n join_unknown_room_full [OF h n, of "''C''"] by simp
qed

text \<open>
  The response to a join for the unknown room \<open>zz\<close> and the response to a join for the
  full room \<open>r1\<close> are the same signal.
\<close>

theorem join_unknown_room_counterexample:
  "map_of example_table ''zz'' = None \<and> \<not> inherited_name ''zz'' \<and>
   snd (on_join ''C'' ''zz'' example_table) = [SocketJoin ''C'' ''zz'', Emit ''C'' (Full True)] \<and>
   map_of example_table ''r1'' = Some example_game \<and>
   length (players example_game) = 2 \<and>
   snd (on_join ''C'' ''r1'' example_table) = [SocketJoin ''C'' ''r1'', Emit ''C'' (Full True)]"
  by (simp add: example_table_def example_game_def on_join_def not_inherited_zz)

subsection \<open>C6: disconnect\<close>

text \<open>
  Claim C6.  In a table with one entry per room id, a disconnect treats every room on its
  own.  Where the connection holds a seat, the room loses exactly that seat, every other
  field and every other seat stay as they were, and the room is sent one line naming the
  colour that left.  Where it holds no seat, the room is unchanged and is sent nothing.
  The room ids of the table stay the same, and a disconnect sends nothing but broadcasts
  to rooms.
\<close>

theorem disconnect_frame:
  assumes "distinct (map fst games)" and "map_of games r = Some g"
  shows "map fst (fst (on_disconnect s games)) = map fst games \<and>
         (\<forall>c. map_of (players g) s = Some c \<longrightarrow>
            map_of (fst (on_disconnect s games)) r =
              Some (g\<lparr> players := AList.delete s (players g) \<rparr>) \<and>
            map_of (AList.delete s (players g)) = (map_of (players g))(s := None) \<and>
            broadcasts_to r (snd (on_disconnect s games)) =
              [Chat (''<i>'' @ color_name c @ '' hat verlassen</i>'')]) \<and>
         (map_of (players g) s = None \<longrightarrow>
            map_of (fst (on_disconnect s games)) r = Some g \<and>
            broadcasts_to r (snd (on_disconnect s games)) = []) \<and>
         (\<forall>e \<in> set (snd (on_disconnect s games)). \<exists>r' p. e = Broadcast r' p)"
  using assms on_disconnect_broadcasts [OF assms, of s]
  by (auto simp: on_disconnect_keys on_disconnect_room leave_def delete_conv'
           dest: on_disconnect_only_broadcasts)

theorem disconnect_frame_witness:
  "distinct (map fst two_rooms) \<and>
   map_of two_rooms ''r1'' = Some example_game \<and>
   map_of two_rooms ''r2'' = Some lone_game \<and>
   map_of (players example_game) ''A'' = Some White \<and>
   map_of (players lone_game) ''A'' = None \<and>
   map_of (fst (on_disconnect ''A'' two_rooms)) ''r1'' =
     Some (example_game\<lparr> players := [(''B'', Black)] \<rparr>) \<and>
   broadcasts_to ''r1'' (snd (on_disconnect ''A'' two_rooms)) =
     [Chat ''<i>white hat verlassen</i>''] \<and>
   map_of (fst (on_disconnect ''A'' two_rooms)) ''r2'' = Some lone_game \<and>
   broadcasts_to ''r2'' (snd (on_disconnect ''A'' two_rooms)) = []"
proof -
  have d: "distinct (map fst two_rooms)" by (simp add: two_rooms_def)
  have r1: "map_of two_rooms ''r1'' = Some example_game"
    and r2: "map_of two_rooms ''r2'' = Some lone_game"
    by (simp_all add: two_rooms_def)
  have a1: "map_of (players example_game) ''A'' = Some White"
    and del: "AList.delete ''A'' (players example_game) = [(''B'', Black)]"
    by (simp_all add: example_game_def)
  have a2: "map_of (players lone_game) ''A'' = None" by (simp add: lone_game_def)
  show ?thesis
    using d r1 r2 a1 a2 del
      disconnect_frame [OF d r1, of "''A''"] disconnect_frame [OF d r2, of "''A''"]
    by simp
qed

subsection \<open>C7: chat\<close>

text \<open>
  Claim C7.  A chat event on an existing room changes nothing and broadcasts to the room
  one line: the label, then the message as it came.  The label is the colour of the
  sender's seat.  For a sender without a seat the label reads \<open>undefined\<close>, which is no
  colour: the line differs from every line labelled with a colour.
\<close>

theorem chat_label:
  assumes "map_of games room = Some g"
  shows "(\<forall>c. map_of (players g) s = Some c \<longrightarrow>
            on_chat s room msg games =
              (games, [Broadcast room (Chat (''<b>'' @ color_name c @ '':</b> '' @ msg))])) \<and>
         (map_of (players g) s = None \<longrightarrow>
            on_chat s room msg games =
              (games, [Broadcast room (Chat (''<b>undefined:</b> '' @ msg))]) \<and>
            (\<forall>c msg'. ''<b>undefined:</b> '' @ msg \<noteq> ''<b>'' @ color_name c @ '':</b> '' @ msg'))"
proof -
  have "''<b>undefined:</b> '' @ msg \<noteq> ''<b>'' @ color_name c @ '':</b> '' @ msg'" for c msg'
    by (cases c) simp_all
  then show ?thesis using assms by (simp add: on_chat_def)
qed

theorem chat_label_witness:
  "map_of example_table ''r1'' = Some example_game \<and>
   map_of (players example_game) ''A'' = Some White \<and>
   on_chat ''A'' ''r1'' ''hi'' example_table =
     (example_table, [Broadcast ''r1'' (Chat ''<b>white:</b> hi'')]) \<and>
   map_of (players example_game) ''C'' = None \<and>
   on_chat ''C'' ''r1'' ''hi'' example_table =
     (example_table, [Broadcast ''r1'' (Chat ''<b>undefined:</b> hi'')])"
proof -
  have h: "map_of example_table ''r1'' = Some example_game" by (simp add: example_table_def)
  have a: "map_of (players example_game) ''A'' = Some White"
    and c: "map_of (players example_game) ''C'' = None"
    by (simp_all add: example_game_def)
  show ?thesis
    using h a c chat_label [OF h, of "''A''" "''hi''"] chat_label [OF h, of "''C''" "''hi''"]
    by simp
qed

subsection \<open>C8: translation of a move\<close>

text \<open>
  Claim C8.  For squares on the board, the request built for the validator names the
  source and the target by file letter and rank digit, and carries the promotion hint
  \<open>q\<close> exactly when the piece on the source square is a pawn and the target lies on
  rank 8 for a white pawn or rank 1 for a black pawn; otherwise it carries none.  A move
  of a seated connection whose colour is to move is decided by the validator on exactly
  this request.
\<close>

theorem move_translation:
  assumes "on_board src" and "on_board dst"
  shows "move_request V b src dst = spec_request V b src dst \<and>
         (map_of games room = Some g \<and> map_of (players g) s = Some c \<and>
          side_of c = chess_turn V (board g) \<longrightarrow>
            on_move V now s room src dst games =
              (case chess_move V (board g) (spec_request V (board g) src dst) of
                 None \<Rightarrow> (AList.update room (update_time now c g) games, [])
               | Some (b', san) \<Rightarrow>
                   (AList.update room
                      ((update_time now c g)\<lparr> board := b', move_list := move_list g @ [san] \<rparr>)
                      games,
                    [Broadcast room
                       (Moved src dst (next_turn (chess_turn V b')) (src, dst)
                          (time (update_time now c g)))])))"
  using assms by (simp add: move_request_on_board on_move_seated)

theorem move_translation_witness:
  "on_board (0, 6) \<and> on_board (0, 7) \<and> on_board (4, 1) \<and> on_board (4, 3) \<and>
   move_request demo_chess promotion_board (0, 6) (0, 7) =
     \<lparr> mv_from = ''a7'', mv_to = ''a8'', mv_promotion = Some ''q'' \<rparr> \<and>
   move_request demo_chess (board example_game) (4, 1) (4, 3) =
     \<lparr> mv_from = ''e2'', mv_to = ''e4'', mv_promotion = None \<rparr> \<and>
   map_of example_table ''r1'' = Some example_game \<and>
   map_of (players example_game) ''A'' = Some White \<and>
   side_of White = chess_turn demo_chess (board example_game) \<and>
   snd (on_move demo_chess 6000 ''A'' ''r1'' (4, 1) (4, 3) example_table) =
     [Broadcast ''r1''
        (Moved (4, 1) (4, 3) Black ((4, 1), (4, 3)) (Some \<lparr> white = 295, black = 300 \<rparr>))]"
proof -
  have b: "on_board (0, 6)" "on_board (0, 7)" "on_board (4, 1)" "on_board (4, 3)"
    by (simp_all add: on_board_def)
  have p: "spec_request demo_chess promotion_board (0, 6) (0, 7) =
             \<lparr> mv_from = ''a7'', mv_to = ''a8'', mv_promotion = Some ''q'' \<rparr>"
    by code_simp
  have q: "spec_request demo_chess (board example_game) (4, 1) (4, 3) =
             \<lparr> mv_from = ''e2'', mv_to = ''e4'', mv_promotion = None \<rparr>"
    by code_simp
  have a: "map_of (players example_game) ''A'' = Some White" by (simp add: example_game_def)
  have t: "side_of White = chess_turn demo_chess (board example_game)"
    by (simp add: example_game_def new_game_def demo_chess_def)
  have m: "map_option (\<lambda>(b, san). (chess_turn demo_chess b, san))
             (chess_move demo_chess (board example_game)
                \<lparr> mv_from = ''e2'', mv_to = ''e4'', mv_promotion = None \<rparr>) = Some (B, ''e4'')"
    by code_simp
  have c: "time (update_time 6000 White example_game) = Some \<lparr> white = 295, black = 300 \<rparr>"
    by code_simp
  show ?thesis
    using b p q a t m c example_room
      move_translation [OF b(1) b(2), of demo_chess promotion_board]
      move_translation [OF b(3) b(4), of demo_chess "board example_game" example_table "''r1''"
        example_game "''A''" White 6000]
    by (auto simp: next_turn_def)
qed

subsection \<open>C9: a second join of the only seated connection\<close>

text \<open>
  Claim C9.  In a room whose only seat binds connection \<open>c\<close> to white, a join from \<open>c\<close>
  is treated like any join into a room with a free seat: \<open>c\<close> is told it plays black,
  the room is told black has joined, no \<open>full\<close> signal is sent, and afterwards the only
  seat binds \<open>c\<close> to black.
\<close>

theorem rejoin_rebinds:
  assumes "map_of games room = Some g" and "players g = [(c, White)]"
  shows "on_join c room games =
           (AList.update room (g\<lparr> players := [(c, Black)] \<rparr>) games,
            [SocketJoin c room,
             Emit c (Player Black (mode g) (time g)),
             Broadcast room (Chat ''<i>black ist beigetreten</i>'')]) \<and>
         map_option players (map_of (fst (on_join c room games)) room) = Some [(c, Black)]"
  using assms by (simp add: on_join_def map_of_update_room)

theorem rejoin_rebinds_witness:
  "map_of [(''r2'', lone_game)] ''r2'' = Some lone_game \<and>
   players lone_game = [(''B'', White)] \<and>
   on_join ''B'' ''r2'' [(''r2'', lone_game)] =
     ([(''r2'', lone_game\<lparr> players := [(''B'', Black)] \<rparr>)],
      [SocketJoin ''B'' ''r2'',
       Emit ''B'' (Player Black ''normal'' None),
       Broadcast ''r2'' (Chat ''<i>black ist beigetreten</i>'')]) \<and>
   map_option players (map_of (fst (on_join ''B'' ''r2'' [(''r2'', lone_game)])) ''r2'') =
     Some [(''B'', Black)]"
proof -
  have h1: "map_of [(''r2'', lone_game)] ''r2'' = Some lone_game" by simp
  have h2: "players lone_game = [(''B'', White)]" by (simp add: lone_game_def)
  have m: "mode lone_game = ''normal''" "time lone_game = None"
    by (simp_all add: lone_game_def new_game_def mode_time_def)
  show ?thesis using h1 h2 m rejoin_rebinds [OF h1 h2] by simp
qed

subsection \<open>C10: chat and move for a room that does not exist\<close>

text \<open>
  Claim C10 says that a chat event or a move event for a room id that is not in the table
  changes nothing and sends nothing.  Both handlers mean this by \<open>if (!game) return;\<close>,
  and the guard misses the ids that name a member inherited from \<open>Object.prototype\<close>.
  On the table that holds only room \<open>r1\<close>, a chat and a move for the room id
  \<open>constructor\<close> do not return: each throws a \<open>TypeError\<close> at
  \<open>game.players[socket.id]\<close>.
\<close>

theorem chat_move_inherited_room_throws:
  "map_of example_table ''constructor'' = None \<and>
   on_chat ''A'' ''constructor'' ''hi'' example_table = (example_table, [Throws TypeError]) \<and>
   on_move demo_chess 6000 ''A'' ''constructor'' (4, 1) (4, 3) example_table =
     (example_table, [Throws TypeError])"
  by (simp add: example_table_def on_chat_def on_move_def inherited_constructor)

end
